theory Spec2Isabelle
  imports
    Main
    "HOL-Library.Word"
    "HOL-Library.Char_ord"
    "HOL-Library.List_Lexorder"
    "HOL-Library.Multiset"
begin

unbundle bit_operations_syntax

section \<open>Basic types of the generated file system\<close>

text \<open>
  Go's \<open>[]byte\<close> and \<open>string\<close> are byte sequences: both are \<open>char list\<close> here.
  \<open>int64\<close> is a 64-bit word read as two's complement (\<open>sint\<close>); its \<open>+\<close> and
  \<open>-\<close> wrap, as Go's do. \<open>os.FileMode\<close> is a \<open>uint32\<close>. Go's \<open>int\<close> (the
  \<open>whence\<close> and \<open>count\<close> arguments, \<open>Dir.pos\<close>) is \<open>int\<close>: the code never
  does arithmetic on it that leaves the range of a slice length.
\<close>

type_synonym bytes = string
type_synonym int64 = "64 word"
type_synonym FileMode = "32 word"
type_synonym Time = int

datatype error =
    EOF                              \<comment> \<open>\<open>io.EOF\<close>\<close>
  | ErrNotExist                      \<comment> \<open>\<open>os.ErrNotExist\<close>\<close>
  | ErrHeader                        \<comment> \<open>\<open>gzip.ErrHeader\<close>\<close>
  | ErrChecksum                      \<comment> \<open>\<open>gzip.ErrChecksum\<close>\<close>
  | ErrUnexpectedEOF                 \<comment> \<open>\<open>io.ErrUnexpectedEOF\<close>\<close>
  | errCompressedNotSmaller
  | Errorf string                    \<comment> \<open>\<open>fmt.Errorf\<close>, with the formatted message\<close>
  | PathError string string error    \<comment> \<open>\<open>&os.PathError{Op, Path, Err}\<close>\<close>
  | InputError string                \<comment> \<open>an error of the input file system\<close>

text \<open>A call either returns or panics.\<close>

datatype 'a outcome = Return 'a | Panic

definition SeekStart :: int where "SeekStart = 0"
definition SeekCurrent :: int where "SeekCurrent = 1"
definition SeekEnd :: int where "SeekEnd = 2"

definition ModeDir :: FileMode where
  "ModeDir = push_bit 31 1"

section \<open>The gzip reader\<close>

text \<open>
  \<open>compress/gzip\<close> is a library of the Go distribution. What the file system needs of
  it is a decoder \<open>gunzip\<close>, a parameter of the model: on a payload whose header cannot
  be read it gives the error of \<open>gzip.NewReader\<close> and of \<open>Reset\<close>; on any other
  payload it gives the bytes the stream decodes to and the error that ends the stream
  (\<open>io.EOF\<close> for an intact payload, a checksum or truncation error otherwise).
  A \<open>*gzip.Reader\<close> is then the part of the decoded stream not yet delivered.
\<close>

type_synonym decoder = "bytes \<Rightarrow> error + (bytes \<times> error)"

record gzReader =
  pending :: bytes
  final :: error

text \<open>\<open>gzip.NewReader(bytes.NewReader(b))\<close>.\<close>

definition NewReader :: "decoder \<Rightarrow> bytes \<Rightarrow> error + gzReader" where
  "NewReader gunzip b =
     (case gunzip b of
        Inl e \<Rightarrow> Inl e
      | Inr (out, fin) \<Rightarrow> Inr \<lparr>pending = out, final = fin\<rparr>)"



text \<open>
  \<open>io.CopyN(ioutil.Discard, gr, k)\<close>: reads and drops \<open>k\<close> bytes. It returns the number
  of bytes copied, which is \<open>k\<close> exactly when the error is nil; a stream that ends
  before \<open>k\<close> bytes gives \<open>io.EOF\<close> (or the stream's own error).
\<close>

definition CopyN_Discard :: "gzReader \<Rightarrow> int64 \<Rightarrow> (int64 \<times> error option) \<times> gzReader" where
  "CopyN_Discard r k =
     (if sint k \<le> 0 then ((0, None), r)
      else if nat (sint k) \<le> length (pending r)
      then ((k, None), r\<lparr>pending := drop (nat (sint k)) (pending r)\<rparr>)
      else ((word_of_nat (length (pending r)), Some (final r)), r\<lparr>pending := []\<rparr>))"

section \<open>The nodes of the table\<close>

record CompressedFileInfo =
  cname :: string
  cmodTime :: Time
  compressedContent :: bytes
  uncompressedSize :: int64

record FileInfo =
  fname :: string
  fmodTime :: Time
  content :: bytes

text \<open>
  The \<open>entries\<close> of a directory are the pointers \<open>fs[p].(os.FileInfo)\<close>, one for each
  child path \<open>p\<close>: the model keeps the key \<open>p\<close>, the address of that node in the table.
\<close>

record DirInfo =
  dname :: string
  dmodTime :: Time
  entries :: "string list"

datatype node =
    CompressedFileInfoN CompressedFileInfo
  | FileInfoN FileInfo
  | DirInfoN DirInfo

type_synonym FS = "string \<rightharpoonup> node"

text \<open>The methods of \<open>os.FileInfo\<close>, for each of the three node types.\<close>

fun Name :: "node \<Rightarrow> string" where
  "Name (CompressedFileInfoN f) = cname f"
| "Name (FileInfoN f) = fname f"
| "Name (DirInfoN d) = dname d"

fun Size :: "node \<Rightarrow> int64" where
  "Size (CompressedFileInfoN f) = uncompressedSize f"
| "Size (FileInfoN f) = word_of_nat (length (content f))"
| "Size (DirInfoN d) = 0"

text \<open>The octal literals \<open>0444\<close> and \<open>0755\<close> are \<open>0x124\<close> and \<open>0x1ED\<close>.\<close>

fun Mode :: "node \<Rightarrow> FileMode" where
  "Mode (CompressedFileInfoN f) = 0x124"
| "Mode (FileInfoN f) = 0x124"
| "Mode (DirInfoN d) = 0x1ED OR ModeDir"

fun ModTime :: "node \<Rightarrow> Time" where
  "ModTime (CompressedFileInfoN f) = cmodTime f"
| "ModTime (FileInfoN f) = fmodTime f"
| "ModTime (DirInfoN d) = dmodTime d"

fun IsDir :: "node \<Rightarrow> bool" where
  "IsDir (CompressedFileInfoN f) = False"
| "IsDir (FileInfoN f) = False"
| "IsDir (DirInfoN d) = True"

section \<open>Open handles\<close>

record CompressedFile =
  cinfo :: CompressedFileInfo
  gr :: gzReader
  grPos :: int64
  seekPos :: int64

text \<open>A stored file is a \<open>bytes.Reader\<close> on the content: the content and the offset.\<close>

record File =
  finfo :: FileInfo
  roff :: int64

record Dir =
  dinfo :: DirInfo
  pos :: int

datatype handle =
    CompressedFileH CompressedFile
  | FileH File
  | DirH Dir

text \<open>\<open>Stat\<close> returns the node itself as \<open>os.FileInfo\<close>, and never an error.\<close>

fun Stat :: "handle \<Rightarrow> node" where
  "Stat (CompressedFileH f) = CompressedFileInfoN (cinfo f)"
| "Stat (FileH f) = FileInfoN (finfo f)"
| "Stat (DirH d) = DirInfoN (dinfo d)"

text \<open>
  The capability probe of the file server, \<open>f.(gzipByter)\<close>: only
  \<open>CompressedFileInfo\<close> has the method \<open>GzipBytes\<close>.
\<close>

fun GzipBytes :: "handle \<Rightarrow> bytes option" where
  "GzipBytes (CompressedFileH f) = Some (compressedContent (cinfo f))"
| "GzipBytes (FileH f) = None"
| "GzipBytes (DirH d) = None"

subsection \<open>Compressed files\<close>


definition fastForward :: "CompressedFile \<Rightarrow> error \<times> CompressedFile + CompressedFile" where
  "fastForward f =
     (if sint (grPos f) < sint (seekPos f) then
        (case CopyN_Discard (gr f) (seekPos f - grPos f) of
           ((_, Some e), r) \<Rightarrow> Inl (e, f\<lparr>gr := r\<rparr>)
         | ((_, None), r) \<Rightarrow> Inr (f\<lparr>gr := r, grPos := seekPos f\<rparr>))
      else Inr f)"


definition CompressedFile_Seek ::
  "CompressedFile \<Rightarrow> int64 \<Rightarrow> int \<Rightarrow> ((int64 \<times> error option) \<times> CompressedFile) outcome" where
  "CompressedFile_Seek f offset whence =
     (if whence = SeekStart then
        Return ((0 + offset, None), f\<lparr>seekPos := 0 + offset\<rparr>)
      else if whence = SeekCurrent then
        Return ((seekPos f + offset, None), f\<lparr>seekPos := seekPos f + offset\<rparr>)
      else if whence = SeekEnd then
        Return ((uncompressedSize (cinfo f) + offset, None),
                f\<lparr>seekPos := uncompressedSize (cinfo f) + offset\<rparr>)
      else Panic)"

text \<open>The position a \<open>Seek\<close> with a standard \<open>whence\<close> computes.\<close>

definition Seek_target :: "CompressedFile \<Rightarrow> int64 \<Rightarrow> int \<Rightarrow> int64" where
  "Seek_target f offset whence =
     (if whence = SeekStart then offset
      else if whence = SeekCurrent then seekPos f + offset
      else uncompressedSize (cinfo f) + offset)"

subsection \<open>Directories\<close>

definition DirInfo_Read :: "Dir \<Rightarrow> nat \<Rightarrow> (int \<times> error option) \<times> Dir" where
  "DirInfo_Read d n = ((0, Some (Errorf (''cannot Read from directory '' @ dname (dinfo d)))), d)"

definition Dir_Seek :: "Dir \<Rightarrow> int64 \<Rightarrow> int \<Rightarrow> (int64 \<times> error option) \<times> Dir" where
  "Dir_Seek d offset whence =
     (if offset = 0 \<and> whence = SeekStart then ((0, None), d\<lparr>pos := 0\<rparr>)
      else ((0, Some (Errorf (''unsupported Seek in directory '' @ dname (dinfo d)))), d))"

text \<open>
  \<open>Readdir(count)\<close>, with \<open>cnt\<close> for the argument \<open>count\<close>. The slice expression \<open>d.entries[d.pos : d.pos+count]\<close> panics when
  its bounds are not \<open>0 \<le> low \<le> high \<le> len\<close>.
\<close>

definition Dir_Readdir :: "Dir \<Rightarrow> int \<Rightarrow> ((string list \<times> error option) \<times> Dir) outcome" where
  "Dir_Readdir d cnt =
     (let len = int (length (entries (dinfo d))) in
      if pos d \<ge> len \<and> cnt > 0 then Return (([], Some EOF), d)
      else
        (let cnt' = (if cnt \<le> 0 \<or> cnt > len - pos d then len - pos d else cnt) in
         if 0 \<le> pos d \<and> pos d \<le> pos d + cnt' \<and> pos d + cnt' \<le> len
         then Return ((take (nat cnt') (drop (nat (pos d)) (entries (dinfo d))), None),
                      d\<lparr>pos := pos d + cnt'\<rparr>)
         else Panic))"

section \<open>Paths\<close>

text \<open>
  \<open>path.Clean\<close>, \<open>path.Join\<close> and \<open>path.Base\<close> of the Go distribution, by their
  documented rules. \<open>Clean\<close> drops empty and \<open>.\<close> elements, lets a \<open>..\<close> element
  remove the element before it, drops a \<open>..\<close> that would climb over the root of a
  rooted path, keeps it at the start of a path that is not rooted, and returns \<open>.\<close>
  for an empty result.
\<close>

fun elements :: "string \<Rightarrow> string list" where
  "elements [] = [[]]"
| "elements (c # cs) =
     (if c = CHR ''/'' then [] # elements cs
      else (case elements cs of [] \<Rightarrow> [[c]] | e # es \<Rightarrow> (c # e) # es))"

definition clean_step :: "bool \<Rightarrow> string list \<Rightarrow> string \<Rightarrow> string list" where
  "clean_step rooted out e =
     (if e = [] \<or> e = ''.'' then out
      else if e = ''..'' then
        (if out \<noteq> [] \<and> last out \<noteq> ''..'' then butlast out
         else if rooted then out
         else out @ [''..''])
      else out @ [e])"

fun join_slash :: "string list \<Rightarrow> string" where
  "join_slash [] = []"
| "join_slash [e] = e"
| "join_slash (e # es) = e @ ''/'' @ join_slash es"

definition Clean :: "string \<Rightarrow> string" where
  "Clean path =
     (if path = [] then ''.''
      else
        (let rooted = (hd path = CHR ''/'');
             out = foldl (clean_step rooted) [] (elements path);
             s = (if rooted then ''/'' else []) @ join_slash out
         in if s = [] then ''.'' else s))"

definition Join :: "string \<Rightarrow> string \<Rightarrow> string" where
  "Join a b =
     (if a = [] \<and> b = [] then []
      else if a = [] then Clean b
      else if b = [] then Clean a
      else Clean (a @ ''/'' @ b))"

definition Base :: "string \<Rightarrow> string" where
  "Base path =
     (if path = [] then ''.''
      else
        (let e = last (elements (rev (dropWhile (\<lambda>c. c = CHR ''/'') (rev path))))
         in if e = [] then ''/'' else e))"

text \<open>
  The path elements \<open>Clean\<close> keeps in a rooted path: not empty, not \<open>.\<close>, not \<open>..\<close>,
  and without a separator.
\<close>

definition proper :: "string \<Rightarrow> bool" where
  "proper e = (e \<noteq> [] \<and> e \<noteq> ''.'' \<and> e \<noteq> ''..'' \<and> CHR ''/'' \<notin> set e)"

section \<open>Open\<close>

text \<open>
  The type switch of \<open>Open\<close>: the fresh handle for a node. A compressed payload whose
  header \<open>gzip.NewReader\<close> cannot read makes \<open>Open\<close> panic. The \<open>default\<close> branch of
  the switch has no counterpart: \<open>node\<close> has the three generated types only.
\<close>

definition Open_node :: "decoder \<Rightarrow> node \<Rightarrow> handle outcome" where
  "Open_node gunzip nd =
     (case nd of
        CompressedFileInfoN f \<Rightarrow>
          (case NewReader gunzip (compressedContent f) of
             Inl e \<Rightarrow> Panic
           | Inr r \<Rightarrow> Return (CompressedFileH \<lparr>cinfo = f, gr = r, grPos = 0, seekPos = 0\<rparr>))
      | FileInfoN f \<Rightarrow> Return (FileH \<lparr>finfo = f, roff = 0\<rparr>)
      | DirInfoN d \<Rightarrow> Return (DirH \<lparr>dinfo = d, pos = 0\<rparr>))"

definition Open :: "decoder \<Rightarrow> FS \<Rightarrow> string \<Rightarrow> (error + handle) outcome" where
  "Open gunzip fs path =
     (let path' = Clean (''/'' @ path) in
      case fs path' of
        None \<Rightarrow> Return (Inl (PathError ''open'' path' ErrNotExist))
      | Some nd \<Rightarrow>
          (case Open_node gunzip nd of
             Panic \<Rightarrow> Panic
           | Return h \<Rightarrow> Return (Inr h)))"

text \<open>
  A handle as \<open>Open\<close> makes it: at position 0, and for a compressed file with the
  reader \<open>gzip.NewReader\<close> gives on the payload.
\<close>

fun fresh :: "decoder \<Rightarrow> handle \<Rightarrow> bool" where
  "fresh gunzip (CompressedFileH f) =
     (grPos f = 0 \<and> seekPos f = 0 \<and> NewReader gunzip (compressedContent (cinfo f)) = Inr (gr f))"
| "fresh gunzip (FileH f) = (roff f = 0)"
| "fresh gunzip (DirH d) = (pos d = 0)"

section \<open>Handles that \<open>Open\<close>, \<open>Seek\<close> and \<open>Read\<close> can produce\<close>

text \<open>
  What holds of every compressed-file handle that \<open>Open\<close> returned and that \<open>Seek\<close>
  and \<open>Read\<close> have worked on: the payload decodes (to fewer than \<open>2^63\<close> bytes),
  \<open>grPos\<close> lies within the decoded stream, and the reader is either at \<open>grPos\<close> or
  used up (a fast-forward that ran into the end of the stream leaves it so).
\<close>

definition handle_ok :: "decoder \<Rightarrow> CompressedFile \<Rightarrow> bool" where
  "handle_ok gunzip f =
     (case gunzip (compressedContent (cinfo f)) of
        Inl e \<Rightarrow> False
      | Inr (out, fin) \<Rightarrow>
          length out < 2 ^ 63
          \<and> final (gr f) = fin
          \<and> 0 \<le> sint (grPos f)
          \<and> nat (sint (grPos f)) \<le> length out
          \<and> (pending (gr f) = drop (nat (sint (grPos f))) out \<or> pending (gr f) = []))"


section \<open>The generator\<close>

subsection \<open>The input file system\<close>

text \<open>
  \<open>Generate\<close> reads an \<open>http.FileSystem\<close> through \<open>vfsutil.WalkFiles\<close> and
  \<open>vfsutil.ReadDir\<close>. The input is the tree those calls see. A file has its
  \<open>os.FileInfo\<close>, what reading it to the end gives (the bytes, or the message of the
  read error), and the error of \<open>Seek(0, io.SeekStart)\<close> if there is one. A directory
  has its \<open>os.FileInfo\<close>, the error of reading the directory if there is one, and its
  entries. \<open>InBroken\<close> is an entry, with its name, that cannot be opened or stat'ed.
  The errors of the input are values of their own: none of them is
  \<open>errCompressedNotSmaller\<close>, which is private to the generator.
  \<open>ModTime().UTC()\<close> is the same instant: \<open>Time\<close> is the instant.
\<close>

record osFileInfo =
  os_Name :: string
  os_Size :: int64
  os_ModTime :: Time

datatype inode =
    InFile osFileInfo "string + bytes" "string option"
  | InDir osFileInfo "string option" "inode list"
  | InBroken string string

fun inode_Name :: "inode \<Rightarrow> string" where
  "inode_Name (InFile fi r sk) = os_Name fi"
| "inode_Name (InDir fi lerr cs) = os_Name fi"
| "inode_Name (InBroken n e) = n"

text \<open>
  \<open>vfsutil.ReadDir(fs, dirname)\<close> on a directory of the input: the error, or the names
  of the \<open>os.FileInfo\<close>s it returns.
\<close>

definition ReadDir :: "string option \<Rightarrow> inode list \<Rightarrow> string + string list" where
  "ReadDir lerr cs = (case lerr of Some e \<Rightarrow> Inl e | None \<Rightarrow> Inr (map inode_Name cs))"

subsection \<open>The generated text\<close>

record Options =
  Filename :: string
  PackageName :: string
  BuildTags :: string
  VariableName :: string
  VariableComment :: string

record fileInfo =
  file_Path :: string
  file_Name :: string
  file_ModTime :: Time
  UncompressedSize :: int64

record dirInfo =
  dir_Path :: string
  dir_Name :: string
  dir_ModTime :: Time
  Entries :: "string list"

record toc =
  dirs :: "dirInfo list"
  HasCompressedFile :: bool
  HasFile :: bool

text \<open>
  The output buffer holds Go source text. The model keeps it as the sequence of the
  pieces written: one piece for each execution of a template, with the data it was
  executed on, and one piece for the string literal that \<open>stringWriter\<close> writes, with
  the bytes the literal denotes. \<open>buf.Len()\<close> is the number of pieces and
  \<open>buf.Truncate(marker)\<close> keeps the first \<open>marker\<close> of them. Executing a template on
  the buffer does not fail.
\<close>

datatype chunk =
    Header Options
  | CompressedFileInfo_Before fileInfo
  | CompressedFileInfo_After
  | FileInfo_Before fileInfo
  | FileInfo_After
  | Literal bytes
  | DirInfo_Template dirInfo
  | DirEntries "dirInfo list"
  | Trailer toc

subsection \<open>Writing one file\<close>

text \<open>
  \<open>gz\<close> is the compression of \<open>gzip.NewWriter\<close>, a parameter. \<open>sw.N\<close>, the \<open>int64\<close>
  count of the bytes written through the \<open>stringWriter\<close>, is the length of the
  compressed payload. The reader \<open>r\<close> is what reading the file gives.
\<close>

definition writeCompressedFileInfo ::
  "(bytes \<Rightarrow> bytes) \<Rightarrow> chunk list \<Rightarrow> fileInfo \<Rightarrow> string + bytes \<Rightarrow> error option \<times> chunk list" where
  "writeCompressedFileInfo gz w file r =
     (let w1 = w @ [CompressedFileInfo_Before file] in
      case r of
        Inl e \<Rightarrow> (Some (InputError e), w1)
      | Inr data \<Rightarrow>
          (let w2 = w1 @ [Literal (gz data)];
               N = (word_of_nat (length (gz data)) :: int64)
           in if sint N \<ge> sint (UncompressedSize file) then (Some errCompressedNotSmaller, w2)
              else (None, w2 @ [CompressedFileInfo_After])))"

definition writeFileInfo ::
  "chunk list \<Rightarrow> fileInfo \<Rightarrow> string + bytes \<Rightarrow> error option \<times> chunk list" where
  "writeFileInfo w file r =
     (let w1 = w @ [FileInfo_Before file] in
      case r of
        Inl e \<Rightarrow> (Some (InputError e), w1)
      | Inr data \<Rightarrow> (None, w1 @ [Literal data] @ [FileInfo_After]))"

text \<open>
  \<open>readDirPaths\<close>, on the result \<open>rd\<close> of \<open>vfsutil.ReadDir(fs, dirname)\<close>.
  \<open>sort.Strings\<close> sorts by the bytes of the strings.
\<close>

definition readDirPaths :: "string + string list \<Rightarrow> string \<Rightarrow> error + string list" where
  "readDirPaths rd dirname =
     (case rd of
        Inl e \<Rightarrow> Inl (InputError e)
      | Inr names \<Rightarrow> Inr (sort (map (\<lambda>name. Join dirname name) names)))"

subsection \<open>The walk\<close>

text \<open>
  \<open>walkFn\<close> of \<open>findAndWriteFiles\<close>, with the buffer and the table of contents passed
  through. For \<open>InBroken\<close> the walker calls it with the error and no \<open>os.FileInfo\<close>.
\<close>

fun walkFn ::
  "(bytes \<Rightarrow> bytes) \<Rightarrow> string \<Rightarrow> inode \<Rightarrow> chunk list \<times> toc \<Rightarrow> error + chunk list \<times> toc" where
  "walkFn gz path (InBroken n e) (buf, toc) = Inl (InputError e)"
| "walkFn gz path (InFile fi r sk) (buf, toc) =
     (let file = \<lparr>file_Path = path, file_Name = Base path, file_ModTime = os_ModTime fi,
                  UncompressedSize = os_Size fi\<rparr>;
          marker = length buf
      in case writeCompressedFileInfo gz buf file r of
           (None, buf1) \<Rightarrow> Inr (buf1, toc\<lparr>HasCompressedFile := True\<rparr>)
         | (Some err, buf1) \<Rightarrow>
             if err = errCompressedNotSmaller then
               (case sk of
                  Some e \<Rightarrow> Inl (InputError e)
                | None \<Rightarrow>
                    (case writeFileInfo (take marker buf1) file r of
                       (Some err', buf2) \<Rightarrow> Inl err'
                     | (None, buf2) \<Rightarrow> Inr (buf2, toc\<lparr>HasFile := True\<rparr>)))
             else Inl err)"
| "walkFn gz path (InDir fi lerr cs) (buf, toc) =
     (case readDirPaths (ReadDir lerr cs) path of
        Inl err \<Rightarrow> Inl err
      | Inr paths \<Rightarrow>
          (let dir = \<lparr>dir_Path = path, dir_Name = Base path, dir_ModTime = os_ModTime fi,
                      Entries = paths\<rparr>
           in Inr (buf @ [DirInfo_Template dir], toc\<lparr>dirs := dirs toc @ [dir]\<rparr>)))"

text \<open>
  \<open>vfsutil.WalkFiles\<close> is a library: it calls \<open>walkFn\<close> on the root and then, for a
  directory, on every entry in turn, each under the path \<open>path.Join(dir, name)\<close>, and
  stops with the first error \<open>walkFn\<close> returns.
\<close>

fun walkFiles ::
  "(bytes \<Rightarrow> bytes) \<Rightarrow> string \<Rightarrow> inode \<Rightarrow> chunk list \<times> toc \<Rightarrow> error + chunk list \<times> toc"
and walkEntries ::
  "(bytes \<Rightarrow> bytes) \<Rightarrow> string \<Rightarrow> inode list \<Rightarrow> chunk list \<times> toc \<Rightarrow> error + chunk list \<times> toc" where
  "walkFiles gz path (InBroken n e) st = walkFn gz path (InBroken n e) st"
| "walkFiles gz path (InFile fi r sk) st = walkFn gz path (InFile fi r sk) st"
| "walkFiles gz path (InDir fi lerr cs) st =
     (case walkFn gz path (InDir fi lerr cs) st of
        Inl err \<Rightarrow> Inl err
      | Inr st1 \<Rightarrow> walkEntries gz path cs st1)"
| "walkEntries gz path [] st = Inr st"
| "walkEntries gz path (c # cs) st =
     (case walkFiles gz (Join path (inode_Name c)) c st of
        Inl err \<Rightarrow> Inl err
      | Inr st1 \<Rightarrow> walkEntries gz path cs st1)"

definition findAndWriteFiles ::
  "(bytes \<Rightarrow> bytes) \<Rightarrow> chunk list \<Rightarrow> inode \<Rightarrow> toc \<Rightarrow> error + chunk list \<times> toc" where
  "findAndWriteFiles gz buf fs toc = walkFiles gz ''/'' fs (buf, toc)"

subsection \<open>Generate\<close>

text \<open>
  \<open>Generate\<close>, on a disk that maps file names to what was written to them.
  \<open>fillMissing\<close>, which completes the options, is not part of the source at hand and
  is a parameter. \<open>ioutil.WriteFile\<close> writes the whole buffer.
\<close>

definition Generate ::
  "(bytes \<Rightarrow> bytes) \<Rightarrow> (Options \<Rightarrow> Options) \<Rightarrow> inode \<Rightarrow> Options \<Rightarrow> (string \<rightharpoonup> chunk list)
     \<Rightarrow> error option \<times> (string \<rightharpoonup> chunk list)" where
  "Generate gz fillMissing input opt0 disk =
     (let opt = fillMissing opt0;
          buf = [Header opt];
          toc0 = \<lparr>dirs = [], HasCompressedFile = False, HasFile = False\<rparr>
      in case findAndWriteFiles gz buf input toc0 of
           Inl err \<Rightarrow> (Some err, disk)
         | Inr (buf1, toc1) \<Rightarrow>
             (let buf2 = buf1 @ [DirEntries (dirs toc1)];
                  buf3 = buf2 @ [Trailer toc1]
              in (None, disk(Filename opt \<mapsto> buf3))))"

subsection \<open>The table the generated text declares\<close>

text \<open>
  What the generated Go source denotes: the entries of the map literal, one for each
  file and directory written, in the order written.
\<close>

definition entry_of :: "chunk \<Rightarrow> chunk list \<Rightarrow> (string \<times> node) option" where
  "entry_of c rest =
     (case c of
        CompressedFileInfo_Before f \<Rightarrow>
          (case rest of
             Literal b # CompressedFileInfo_After # _ \<Rightarrow>
               Some (file_Path f, CompressedFileInfoN \<lparr>cname = file_Name f, cmodTime = file_ModTime f,
                       compressedContent = b, uncompressedSize = UncompressedSize f\<rparr>)
           | _ \<Rightarrow> None)
      | FileInfo_Before f \<Rightarrow>
          (case rest of
             Literal b # FileInfo_After # _ \<Rightarrow>
               Some (file_Path f, FileInfoN \<lparr>fname = file_Name f, fmodTime = file_ModTime f,
                       content = b\<rparr>)
           | _ \<Rightarrow> None)
      | DirInfo_Template d \<Rightarrow>
          Some (dir_Path d, DirInfoN \<lparr>dname = dir_Name d, dmodTime = dir_ModTime d, entries = []\<rparr>)
      | _ \<Rightarrow> None)"

primrec table_entries :: "chunk list \<Rightarrow> (string \<times> node) list" where
  "table_entries [] = []"
| "table_entries (c # rest) =
     (case entry_of c rest of
        Some e \<Rightarrow> e # table_entries rest
      | None \<Rightarrow> table_entries rest)"

text \<open>
  The statements of the \<open>DirEntries\<close> template: for each directory with entries,
  \<open>fs[path].(*DirInfo).entries\<close> is assigned the nodes of its entries.
\<close>

fun set_entries :: "dirInfo list \<Rightarrow> FS \<Rightarrow> FS" where
  "set_entries [] fs = fs"
| "set_entries (d # ds) fs =
     set_entries ds
       (case fs (dir_Path d) of
          Some (DirInfoN di) \<Rightarrow>
            (if Entries d = [] then fs else fs(dir_Path d \<mapsto> DirInfoN (di\<lparr>entries := Entries d\<rparr>)))
        | _ \<Rightarrow> fs)"

primrec dir_entries_of :: "chunk list \<Rightarrow> dirInfo list" where
  "dir_entries_of [] = []"
| "dir_entries_of (c # rest) =
     (case c of DirEntries ds \<Rightarrow> ds @ dir_entries_of rest | _ \<Rightarrow> dir_entries_of rest)"

definition table_of :: "chunk list \<Rightarrow> FS" where
  "table_of text = set_entries (dir_entries_of text) (map_of (table_entries text))"

section \<open>Callers of the handles\<close>

text \<open>
  The loop of \<open>dirList\<close> in the file server, which reads a directory to its end:
  \<open>for { dirs, err := f.Readdir(n); if err != nil || len(dirs) == 0 { break }; ... }\<close>
  (with \<open>n = 100\<close> there). The function collects the batches \<open>dirs\<close>, written \<open>es\<close>,
  in the order read.
\<close>

function Readdir_loop :: "Dir \<Rightarrow> int \<Rightarrow> string list outcome" where
  "Readdir_loop d n =
     (case Dir_Readdir d n of
        Panic \<Rightarrow> Panic
      | Return ((es, err), d') \<Rightarrow>
          if err \<noteq> None \<or> es = [] then Return []
          else (case Readdir_loop d' n of
                  Panic \<Rightarrow> Panic
                | Return rest \<Rightarrow> Return (es @ rest)))"
  by pat_completeness auto
termination
  apply (relation "measure (\<lambda>(d, n). nat (int (length (entries (dinfo d))) - pos d))")
   apply simp
  apply (auto simp: Dir_Readdir_def Let_def split: if_splits)
  done

declare Readdir_loop.simps [simp del]


section \<open>Failures of the input\<close>

text \<open>
  The operations on the input that fail, in the order of the walk: the open or stat of
  an entry, the read of a file, the \<open>Seek(0, io.SeekStart)\<close> the generator does on a
  file it stores uncompressed, the read of a directory. A directory that cannot be read
  is not descended into.
\<close>

fun failures :: "(bytes \<Rightarrow> bytes) \<Rightarrow> inode \<Rightarrow> string list"
and failures_list :: "(bytes \<Rightarrow> bytes) \<Rightarrow> inode list \<Rightarrow> string list" where
  "failures gz (InBroken n e) = [e]"
| "failures gz (InFile fi r sk) =
     (case r of
        Inl e \<Rightarrow> [e]
      | Inr data \<Rightarrow>
          if sint (word_of_nat (length (gz data)) :: int64) < sint (os_Size fi) then []
          else (case sk of Some e \<Rightarrow> [e] | None \<Rightarrow> []))"
| "failures gz (InDir fi lerr cs) =
     (case lerr of Some e \<Rightarrow> [e] | None \<Rightarrow> failures_list gz cs)"
| "failures_list gz [] = []"
| "failures_list gz (c # cs) = failures gz c @ failures_list gz cs"

section \<open>Examples\<close>

text \<open>
  A stand-in for the decoder in the examples: every payload decodes to itself and the
  stream ends with \<open>io.EOF\<close>.
\<close>

definition plain_gunzip :: decoder where
  "plain_gunzip b = Inr (b, EOF)"

section \<open>Arithmetic of positions\<close>

lemma sint_diff64:
  fixes a b :: int64
  assumes "0 \<le> sint b" and "sint b \<le> sint a"
  shows "sint (a - b) = sint a - sint b"
proof -
  have ub: "sint a < 2 ^ 63"
    using sint_lt [of a] by simp
  have "sint (a - b) = signed_take_bit 63 (sint a - sint b)"
    by (simp add: sint_word_ariths)
  also have "\<dots> = sint a - sint b"
    using assms ub by (intro signed_take_bit_int_eq_self) auto
  finally show ?thesis .
qed

lemma sint_add_nat64:
  fixes a :: int64
  assumes "0 \<le> sint a" and "sint a + int n < 2 ^ 63"
  shows "sint (a + word_of_nat n) = sint a + int n"
proof -
  have n: "sint (word_of_nat n :: int64) = int n"
  proof -
    have "int n < 2 ^ 63" using assms by linarith
    then show ?thesis
      by (simp add: signed_of_nat signed_take_bit_int_eq_self)
  qed
  have "sint (a + word_of_nat n) = signed_take_bit 63 (sint a + sint (word_of_nat n :: int64))"
    by (simp add: sint_word_ariths)
  also have "\<dots> = sint a + int n"
    unfolding n using assms by (intro signed_take_bit_int_eq_self) auto
  finally show ?thesis .
qed


section \<open>Properties of the opened handles\<close>

subsection \<open>Seek on a compressed file\<close>

text \<open>
  C4. With a standard \<open>whence\<close>, \<open>Seek\<close> on a compressed file returns the new
  position (the offset itself from the start, \<open>seekPos + offset\<close> from the current
  position, \<open>uncompressedSize + offset\<close> from the end) and changes \<open>seekPos\<close> only:
  the reader \<open>gr\<close>, \<open>grPos\<close> and the node with its compressed payload are as before.
\<close>

theorem CompressedFile_Seek_frame:
  assumes "whence = SeekStart \<or> whence = SeekCurrent \<or> whence = SeekEnd"
  shows "CompressedFile_Seek f offset whence =
           Return ((Seek_target f offset whence, None), f\<lparr>seekPos := Seek_target f offset whence\<rparr>)
         \<and> gr (f\<lparr>seekPos := Seek_target f offset whence\<rparr>) = gr f
         \<and> grPos (f\<lparr>seekPos := Seek_target f offset whence\<rparr>) = grPos f
         \<and> cinfo (f\<lparr>seekPos := Seek_target f offset whence\<rparr>) = cinfo f"
  using assms
  by (auto simp: CompressedFile_Seek_def Seek_target_def SeekStart_def SeekCurrent_def SeekEnd_def)

theorem CompressedFile_Seek_frame_witness:
  "CompressedFile_Seek
     \<lparr>cinfo = \<lparr>cname = ''a'', cmodTime = 0, compressedContent = ''xyz'', uncompressedSize = 10\<rparr>,
      gr = \<lparr>pending = ''GHIJ'', final = EOF\<rparr>, grPos = 6, seekPos = 3\<rparr> (-4) SeekEnd
   = Return ((6, None),
     \<lparr>cinfo = \<lparr>cname = ''a'', cmodTime = 0, compressedContent = ''xyz'', uncompressedSize = 10\<rparr>,
      gr = \<lparr>pending = ''GHIJ'', final = EOF\<rparr>, grPos = 6, seekPos = 6\<rparr>)"
  using CompressedFile_Seek_frame [of SeekEnd
     "\<lparr>cinfo = \<lparr>cname = ''a'', cmodTime = 0, compressedContent = ''xyz'', uncompressedSize = 10\<rparr>,
      gr = \<lparr>pending = ''GHIJ'', final = EOF\<rparr>, grPos = 6, seekPos = 3\<rparr>" "-4"]
  by (simp add: Seek_target_def SeekStart_def SeekCurrent_def SeekEnd_def)

text \<open>
  C10. \<open>Seek\<close> on a compressed file with \<open>whence\<close> one of \<open>io.SeekStart\<close>,
  \<open>io.SeekCurrent\<close>, \<open>io.SeekEnd\<close> returns the computed position with a nil error,
  whatever the offset (so also for a position that is negative or beyond the
  uncompressed size), and does not panic; with any other \<open>whence\<close> it panics.
\<close>

theorem CompressedFile_Seek_total:
  "(whence \<in> {SeekStart, SeekCurrent, SeekEnd} \<longrightarrow>
      (\<exists>f'. CompressedFile_Seek f offset whence = Return ((Seek_target f offset whence, None), f')
            \<and> seekPos f' = Seek_target f offset whence))
   \<and> (whence \<notin> {SeekStart, SeekCurrent, SeekEnd} \<longrightarrow> CompressedFile_Seek f offset whence = Panic)"
  by (auto simp: CompressedFile_Seek_def Seek_target_def SeekStart_def SeekCurrent_def SeekEnd_def)

theorem CompressedFile_Seek_total_witness:
  "(\<exists>f'. CompressedFile_Seek
       \<lparr>cinfo = \<lparr>cname = ''a'', cmodTime = 0, compressedContent = ''xyz'', uncompressedSize = 10\<rparr>,
        gr = \<lparr>pending = ''GHIJ'', final = EOF\<rparr>, grPos = 6, seekPos = 6\<rparr> (-9) SeekCurrent
       = Return ((-3, None), f') \<and> seekPos f' = -3)
   \<and> CompressedFile_Seek
       \<lparr>cinfo = \<lparr>cname = ''a'', cmodTime = 0, compressedContent = ''xyz'', uncompressedSize = 10\<rparr>,
        gr = \<lparr>pending = ''GHIJ'', final = EOF\<rparr>, grPos = 6, seekPos = 6\<rparr> 0 3 = Panic"
  using CompressedFile_Seek_total [of SeekCurrent
     "\<lparr>cinfo = \<lparr>cname = ''a'', cmodTime = 0, compressedContent = ''xyz'', uncompressedSize = 10\<rparr>,
      gr = \<lparr>pending = ''GHIJ'', final = EOF\<rparr>, grPos = 6, seekPos = 6\<rparr>" "-9"]
    CompressedFile_Seek_total [of 3
     "\<lparr>cinfo = \<lparr>cname = ''a'', cmodTime = 0, compressedContent = ''xyz'', uncompressedSize = 10\<rparr>,
      gr = \<lparr>pending = ''GHIJ'', final = EOF\<rparr>, grPos = 6, seekPos = 6\<rparr>" 0]
  by (simp add: Seek_target_def SeekStart_def SeekCurrent_def SeekEnd_def)

subsection \<open>Read on a compressed file\<close>

lemma handle_okD:
  assumes "handle_ok gunzip f"
  obtains out fin where "gunzip (compressedContent (cinfo f)) = Inr (out, fin)"
    and "length out < 2 ^ 63" and "final (gr f) = fin" and "0 \<le> sint (grPos f)"
    and "nat (sint (grPos f)) \<le> length out"
    and "pending (gr f) = drop (nat (sint (grPos f))) out \<or> pending (gr f) = []"
  using assms by (auto simp: handle_ok_def split: sum.splits prod.splits)


lemma fastForward_handle_ok:
  assumes ok: "handle_ok gunzip f1"
  shows "fastForward f1 =
     (if sint (grPos f1) < sint (seekPos f1) then
        (if nat (sint (seekPos f1) - sint (grPos f1)) \<le> length (pending (gr f1))
         then Inr (f1\<lparr>gr := (gr f1)\<lparr>pending := drop (nat (sint (seekPos f1) - sint (grPos f1))) (pending (gr f1))\<rparr>,
                      grPos := seekPos f1\<rparr>)
         else Inl (final (gr f1), f1\<lparr>gr := (gr f1)\<lparr>pending := []\<rparr>\<rparr>))
      else Inr f1)"
proof (cases "sint (grPos f1) < sint (seekPos f1)")
  case False
  then show ?thesis by (simp add: fastForward_def)
next
  case True
  from ok have g0: "0 \<le> sint (grPos f1)"
    by (rule handle_okD)
  have d: "sint (seekPos f1 - grPos f1) = sint (seekPos f1) - sint (grPos f1)"
    using g0 True by (intro sint_diff64) auto
  show ?thesis
    using True by (simp add: fastForward_def CopyN_Discard_def d)
qed

lemma fastForward_preserves:
  assumes ok: "handle_ok gunzip f1" and ff: "fastForward f1 = Inr f2"
  shows "handle_ok gunzip f2"
proof -
  from ok obtain out fin where g: "gunzip (compressedContent (cinfo f1)) = Inr (out, fin)"
    and len: "length out < 2 ^ 63" and fin: "final (gr f1) = fin" and g0: "0 \<le> sint (grPos f1)"
    and le: "nat (sint (grPos f1)) \<le> length out"
    and pend: "pending (gr f1) = drop (nat (sint (grPos f1))) out \<or> pending (gr f1) = []"
    by (rule handle_okD)
  show ?thesis
  proof (cases "sint (grPos f1) < sint (seekPos f1)")
    case False
    with ff ok show ?thesis by (simp add: fastForward_handle_ok [OF ok])
  next
    case True
    let ?k = "nat (sint (seekPos f1) - sint (grPos f1))"
    from ff True have k: "?k \<le> length (pending (gr f1))"
      and f2: "f2 = f1\<lparr>gr := (gr f1)\<lparr>pending := drop ?k (pending (gr f1))\<rparr>, grPos := seekPos f1\<rparr>"
      by (auto simp: fastForward_handle_ok [OF ok] split: if_splits)
    from True k have ne: "pending (gr f1) \<noteq> []" by auto
    with pend have p: "pending (gr f1) = drop (nat (sint (grPos f1))) out" by simp
    have s: "nat (sint (seekPos f1)) = ?k + nat (sint (grPos f1))"
      using g0 True by simp
    have "nat (sint (seekPos f1)) \<le> length out"
      using k p le s by simp
    moreover have "drop ?k (pending (gr f1)) = drop (nat (sint (seekPos f1))) out"
      unfolding p s by simp
    ultimately show ?thesis
      using g len fin g0 True by (simp add: handle_ok_def f2)
  qed
qed







subsection \<open>Reading a compressed file through\<close>






subsection \<open>Read and Seek on a directory\<close>

text \<open>
  C7. \<open>Read\<close> on a directory returns no bytes and the error
  \<open>cannot Read from directory <name>\<close>. \<open>Seek\<close> on a directory returns a nil error
  exactly for offset 0 from \<open>io.SeekStart\<close>, where it sets \<open>pos\<close> to 0; every other
  request returns the error \<open>unsupported Seek in directory <name>\<close> and leaves the
  handle as it is.
\<close>

theorem Dir_Read_Seek:
  "DirInfo_Read d n = ((0, Some (Errorf (''cannot Read from directory '' @ dname (dinfo d)))), d)
   \<and> Dir_Seek d offset whence =
       (if offset = 0 \<and> whence = SeekStart then ((0, None), d\<lparr>pos := 0\<rparr>)
        else ((0, Some (Errorf (''unsupported Seek in directory '' @ dname (dinfo d)))), d))
   \<and> (snd (fst (Dir_Seek d offset whence)) = None) = (offset = 0 \<and> whence = SeekStart)"
  by (simp add: DirInfo_Read_def Dir_Seek_def)

subsection \<open>Readdir\<close>

lemma Dir_Readdir_bounds:
  assumes "0 \<le> pos d" and "pos d \<le> int (length (entries (dinfo d)))"
  shows "Dir_Readdir d n =
           (if 0 < n \<and> pos d = int (length (entries (dinfo d))) then Return (([], Some EOF), d)
            else
              (let k = (if n \<le> 0 then length (entries (dinfo d)) - nat (pos d)
                        else min (nat n) (length (entries (dinfo d)) - nat (pos d)))
               in Return ((take k (drop (nat (pos d)) (entries (dinfo d))), None),
                          d\<lparr>pos := pos d + int k\<rparr>)))"
proof -
  let ?len = "int (length (entries (dinfo d)))"
  show ?thesis
  proof (cases "0 < n \<and> pos d = ?len")
    case True
    then show ?thesis by (simp add: Dir_Readdir_def)
  next
    case False
    show ?thesis
    proof (cases "n \<le> 0 \<or> n > ?len - pos d")
      case True
      have k: "(if n \<le> 0 then length (entries (dinfo d)) - nat (pos d)
                else min (nat n) (length (entries (dinfo d)) - nat (pos d)))
               = length (entries (dinfo d)) - nat (pos d)"
        using True assms by auto
      have i: "int (length (entries (dinfo d)) - nat (pos d)) = ?len - pos d"
        using assms by simp
      have n: "nat (?len - pos d) = length (entries (dinfo d)) - nat (pos d)"
        using assms by simp
      show ?thesis
        using True False assms
        unfolding Let_def k
        by (auto simp: Dir_Readdir_def Let_def i n)
    next
      case F2: False
      then have n: "0 < n" "n \<le> ?len - pos d" by auto
      have k: "(if n \<le> 0 then length (entries (dinfo d)) - nat (pos d)
                else min (nat n) (length (entries (dinfo d)) - nat (pos d))) = nat n"
        using n assms by auto
      show ?thesis
        using F2 False assms n
        unfolding Let_def k
        by (auto simp: Dir_Readdir_def Let_def)
    qed
  qed
qed

lemma Readdir_loop_all:
  "0 \<le> pos d \<Longrightarrow> pos d \<le> int (length (entries (dinfo d))) \<Longrightarrow>
   Readdir_loop d n = Return (drop (nat (pos d)) (entries (dinfo d)))"
proof (induction d n rule: Readdir_loop.induct)
  case (1 d n)
  let ?es = "entries (dinfo d)"
  let ?k = "(if n \<le> 0 then length ?es - nat (pos d) else min (nat n) (length ?es - nat (pos d)))"
  note R = Dir_Readdir_bounds [OF "1.prems", of n]
  show ?case
  proof (cases "0 < n \<and> pos d = int (length ?es)")
    case True
    then show ?thesis
      using R by (subst Readdir_loop.simps) simp
  next
    case False
    let ?d' = "d\<lparr>pos := pos d + int ?k\<rparr>"
    from False R have R': "Dir_Readdir d n = Return ((take ?k (drop (nat (pos d)) ?es), None), ?d')"
      by (simp add: Let_def)
    show ?thesis
    proof (cases "take ?k (drop (nat (pos d)) ?es) = []")
      case True
      then have "drop (nat (pos d)) ?es = [] \<or> ?k = 0" by (auto simp: take_eq_Nil)
      then have "drop (nat (pos d)) ?es = []"
        using False "1.prems" by (auto split: if_splits)
      then show ?thesis
        using R' True by (subst Readdir_loop.simps) simp
    next
      case ne: False
      have b: "0 \<le> pos ?d'" "pos ?d' \<le> int (length (entries (dinfo ?d')))"
        using "1.prems" by (auto split: if_splits)
      have IH: "Readdir_loop ?d' n = Return (drop (nat (pos ?d')) (entries (dinfo ?d')))"
        using "1.IH" [OF R' refl refl _ b] ne by simp
      have p: "nat (pos ?d') = nat (pos d) + ?k"
        using "1.prems" by (simp add: nat_add_distrib)
      have "take ?k (drop (nat (pos d)) ?es) @ drop (nat (pos d) + ?k) ?es = drop (nat (pos d)) ?es"
        by (metis add.commute append_take_drop_id drop_drop)
      then show ?thesis
        using R' ne IH p by (subst Readdir_loop.simps) simp
    qed
  qed
qed

text \<open>
  C5. On a directory handle whose \<open>pos\<close> lies within the entries (as it does on every
  handle that \<open>Open\<close>, \<open>Seek\<close> and \<open>Readdir\<close> produce), \<open>Readdir(n)\<close> with \<open>n > 0\<close> at
  the end of the entries returns \<open>io.EOF\<close>; otherwise it returns the next \<open>n\<close> entries,
  or all that remain when \<open>n \<le> 0\<close> or fewer than \<open>n\<close> remain, in the stored order, and
  advances \<open>pos\<close> by their number. The batches the loop of \<open>dirList\<close> reads make up, in
  order, the entries from \<open>pos\<close> on: all entries on a fresh handle. When the entries
  are the paths \<open>readDirPaths\<close> recorded, they are in ascending order and are, each as
  often, the paths \<open>path.Join(dirname, name)\<close> of the names read from the directory.
\<close>

theorem Dir_Readdir_listing:
  assumes "0 \<le> pos d" and "pos d \<le> int (length (entries (dinfo d)))"
  shows "Dir_Readdir d n =
           (if 0 < n \<and> pos d = int (length (entries (dinfo d))) then Return (([], Some EOF), d)
            else
              (let k = (if n \<le> 0 then length (entries (dinfo d)) - nat (pos d)
                        else min (nat n) (length (entries (dinfo d)) - nat (pos d)))
               in Return ((take k (drop (nat (pos d)) (entries (dinfo d))), None),
                          d\<lparr>pos := pos d + int k\<rparr>)))
         \<and> Readdir_loop d n = Return (drop (nat (pos d)) (entries (dinfo d)))
         \<and> (pos d = 0 \<longrightarrow> Readdir_loop d n = Return (entries (dinfo d)))
         \<and> (\<forall>rd dirname. readDirPaths rd dirname = Inr (entries (dinfo d)) \<longrightarrow>
               sorted (entries (dinfo d))
               \<and> (\<exists>names. rd = Inr names
                     \<and> mset (entries (dinfo d)) = mset (map (Join dirname) names)
                     \<and> distinct (entries (dinfo d)) = distinct (map (Join dirname) names)))
         \<and> Open_node gunzip (DirInfoN (dinfo d)) = Return (DirH \<lparr>dinfo = dinfo d, pos = 0\<rparr>)"
proof -
  have s: "sorted (entries (dinfo d))
               \<and> (\<exists>names. rd = Inr names
                     \<and> mset (entries (dinfo d)) = mset (map (Join dirname) names)
                     \<and> distinct (entries (dinfo d)) = distinct (map (Join dirname) names))"
    if h: "readDirPaths rd dirname = Inr (entries (dinfo d))" for rd dirname
  proof -
    from h obtain names where rd: "rd = Inr names"
      and e: "entries (dinfo d) = sort (map (Join dirname) names)"
      by (auto simp: readDirPaths_def split: sum.splits)
    show ?thesis
      unfolding e using rd by simp
  qed
  have l: "Readdir_loop d n = Return (drop (nat (pos d)) (entries (dinfo d)))"
    using assms by (rule Readdir_loop_all)
  have l0: "pos d = 0 \<longrightarrow> Readdir_loop d n = Return (entries (dinfo d))"
    using l by simp
  have o: "Open_node gunzip (DirInfoN (dinfo d)) = Return (DirH \<lparr>dinfo = dinfo d, pos = 0\<rparr>)"
    by (simp add: Open_node_def)
  from Dir_Readdir_bounds [OF assms, of n] l l0 s o show ?thesis
    by blast
qed

theorem Dir_Readdir_listing_witness:
  "Dir_Readdir \<lparr>dinfo = \<lparr>dname = ''/'', dmodTime = 1, entries = [''/B'', ''/a'', ''/b.txt'']\<rparr>, pos = 0\<rparr> 2
     = Return (([''/B'', ''/a''], None),
               \<lparr>dinfo = \<lparr>dname = ''/'', dmodTime = 1, entries = [''/B'', ''/a'', ''/b.txt'']\<rparr>, pos = 2\<rparr>)
   \<and> Readdir_loop \<lparr>dinfo = \<lparr>dname = ''/'', dmodTime = 1, entries = [''/B'', ''/a'', ''/b.txt'']\<rparr>, pos = 0\<rparr> 2
     = Return [''/B'', ''/a'', ''/b.txt'']
   \<and> readDirPaths (Inr [''b.txt'', ''a'', ''B'']) ''/'' = Inr [''/B'', ''/a'', ''/b.txt'']
   \<and> sorted [''/B'', ''/a'', ''/b.txt'']"
proof -
  let ?D = "\<lparr>dinfo = \<lparr>dname = ''/'', dmodTime = 1, entries = [''/B'', ''/a'', ''/b.txt'']\<rparr>, pos = 0\<rparr>"
  have a: "0 \<le> pos ?D" "pos ?D \<le> int (length (entries (dinfo ?D)))"
    by simp_all
  have r: "readDirPaths (Inr [''b.txt'', ''a'', ''B'']) ''/'' = Inr (entries (dinfo ?D))"
    by (simp add: readDirPaths_def Join_def Clean_def clean_step_def)
  note T = Dir_Readdir_listing [OF a, of 2]
  from T have 1: "Dir_Readdir ?D 2
     = Return (([''/B'', ''/a''], None),
               \<lparr>dinfo = \<lparr>dname = ''/'', dmodTime = 1, entries = [''/B'', ''/a'', ''/b.txt'']\<rparr>, pos = 2\<rparr>)"
    by simp
  from T have 2: "Readdir_loop ?D 2 = Return [''/B'', ''/a'', ''/b.txt'']"
    by simp
  from T r have 3: "sorted (entries (dinfo ?D))"
    by blast
  from 1 2 3 r show ?thesis by simp
qed

subsection \<open>Open\<close>

lemma elements_no_slash: "e \<in> set (elements s) \<Longrightarrow> CHR ''/'' \<notin> set e"
proof (induction s arbitrary: e)
  case Nil
  then show ?case by simp
next
  case (Cons c cs)
  then show ?case
    by (cases "elements cs") (auto split: if_splits)
qed

lemma clean_step_rooted:
  assumes "\<forall>e \<in> set out. proper e" and "CHR ''/'' \<notin> set e"
  shows "\<forall>e' \<in> set (clean_step True out e). proper e'"
  using assms
  by (auto simp: clean_step_def proper_def dest: in_set_butlastD)

lemma foldl_clean_step_rooted:
  assumes "\<forall>e \<in> set out. proper e" and "\<forall>e \<in> set es. CHR ''/'' \<notin> set e"
  shows "\<forall>e' \<in> set (foldl (clean_step True) out es). proper e'"
  using assms
proof (induction es arbitrary: out)
  case Nil
  then show ?case by simp
next
  case (Cons e es)
  have "\<forall>e' \<in> set (clean_step True out e). proper e'"
    using Cons.prems by (intro clean_step_rooted) auto
  then show ?case
    using Cons.IH [of "clean_step True out e"] Cons.prems by simp
qed

lemma Clean_rooted:
  "Clean (CHR ''/'' # p) = CHR ''/'' # join_slash (foldl (clean_step True) [] (elements (CHR ''/'' # p)))"
  by (simp add: Clean_def Let_def)


lemma Clean_normal_form:
  "\<exists>es. Clean (''/'' @ path) = ''/'' @ join_slash es \<and> (\<forall>e \<in> set es. proper e)"
proof -
  have "\<forall>e \<in> set (elements (CHR ''/'' # path)). CHR ''/'' \<notin> set e"
    using elements_no_slash by blast
  then have "\<forall>e' \<in> set (foldl (clean_step True) [] (elements (CHR ''/'' # path))). proper e'"
    by (intro foldl_clean_step_rooted) auto
  then show ?thesis
    using Clean_rooted [of path] by auto
qed

text \<open>
  C8. \<open>Open\<close> looks up \<open>path.Clean("/" + path)\<close>, which starts with the separator and
  continues with elements that are not empty, not \<open>.\<close> and not \<open>..\<close>, joined by single
  separators. When the table has no node under that path, \<open>Open\<close> returns the
  \<open>os.PathError\<close> with \<open>os.ErrNotExist\<close>; when it has one, \<open>Open\<close> returns a handle on
  that node at position 0. The table is a generated one: the header of the payload of
  a compressed node can be read (\<open>Open\<close> panics otherwise).
\<close>

theorem Open_lookup:
  assumes "\<And>f. fs (Clean (''/'' @ path)) = Some (CompressedFileInfoN f) \<Longrightarrow>
             \<exists>out fin. gunzip (compressedContent f) = Inr (out, fin)"
  shows "(fs (Clean (''/'' @ path)) = None \<longrightarrow>
            Open gunzip fs path = Return (Inl (PathError ''open'' (Clean (''/'' @ path)) ErrNotExist)))
       \<and> (\<forall>nd. fs (Clean (''/'' @ path)) = Some nd \<longrightarrow>
            (\<exists>h. Open gunzip fs path = Return (Inr h) \<and> Stat h = nd \<and> fresh gunzip h))
       \<and> (\<exists>es. Clean (''/'' @ path) = ''/'' @ join_slash es \<and> (\<forall>e \<in> set es. proper e))"
proof (intro conjI impI allI)
  assume "fs (Clean (''/'' @ path)) = None"
  then show "Open gunzip fs path = Return (Inl (PathError ''open'' (Clean (''/'' @ path)) ErrNotExist))"
    by (simp add: Open_def)
next
  fix nd assume nd: "fs (Clean (''/'' @ path)) = Some nd"
  show "\<exists>h. Open gunzip fs path = Return (Inr h) \<and> Stat h = nd \<and> fresh gunzip h"
  proof (cases nd)
    case (CompressedFileInfoN f)
    with assms nd obtain out fin where "gunzip (compressedContent f) = Inr (out, fin)"
      by blast
    then show ?thesis
      using nd CompressedFileInfoN by (simp add: Open_def Open_node_def NewReader_def)
  next
    case (FileInfoN f)
    then show ?thesis
      using nd by (simp add: Open_def Open_node_def)
  next
    case (DirInfoN d)
    then show ?thesis
      using nd by (simp add: Open_def Open_node_def)
  qed
next
  show "\<exists>es. Clean (''/'' @ path) = ''/'' @ join_slash es \<and> (\<forall>e \<in> set es. proper e)"
    by (rule Clean_normal_form)
qed

theorem Open_lookup_witness:
  "Open plain_gunzip
     [''/a/b'' \<mapsto> CompressedFileInfoN
        \<lparr>cname = ''b'', cmodTime = 0, compressedContent = ''ABCDEFGHIJ'', uncompressedSize = 10\<rparr>]
     ''a//./x/../b/''
   = Return (Inr (CompressedFileH
       \<lparr>cinfo = \<lparr>cname = ''b'', cmodTime = 0, compressedContent = ''ABCDEFGHIJ'', uncompressedSize = 10\<rparr>,
        gr = \<lparr>pending = ''ABCDEFGHIJ'', final = EOF\<rparr>, grPos = 0, seekPos = 0\<rparr>))
   \<and> Open plain_gunzip
     [''/a/b'' \<mapsto> CompressedFileInfoN
        \<lparr>cname = ''b'', cmodTime = 0, compressedContent = ''ABCDEFGHIJ'', uncompressedSize = 10\<rparr>]
     ''/missing''
   = Return (Inl (PathError ''open'' ''/missing'' ErrNotExist))"
proof -
  let ?fs = "[''/a/b'' \<mapsto> CompressedFileInfoN
        \<lparr>cname = ''b'', cmodTime = 0, compressedContent = ''ABCDEFGHIJ'', uncompressedSize = 10\<rparr>]"
  have v: "\<exists>out fin. plain_gunzip (compressedContent f) = Inr (out, fin)" for f
    by (simp add: plain_gunzip_def)
  have c1: "Clean (''/'' @ ''a//./x/../b/'') = ''/a/b''"
    by (simp add: Clean_def clean_step_def)
  have c2: "Clean (''/'' @ ''/missing'') = ''/missing''"
    by (simp add: Clean_def clean_step_def)
  from Open_lookup [of ?fs "''a//./x/../b/''" plain_gunzip, OF v]
  have "\<exists>h. Open plain_gunzip ?fs ''a//./x/../b/'' = Return (Inr h)
          \<and> Stat h = CompressedFileInfoN
               \<lparr>cname = ''b'', cmodTime = 0, compressedContent = ''ABCDEFGHIJ'', uncompressedSize = 10\<rparr>
          \<and> fresh plain_gunzip h"
    unfolding c1 by simp
  then obtain h where o: "Open plain_gunzip ?fs ''a//./x/../b/'' = Return (Inr h)"
    and s: "Stat h = CompressedFileInfoN
               \<lparr>cname = ''b'', cmodTime = 0, compressedContent = ''ABCDEFGHIJ'', uncompressedSize = 10\<rparr>"
    and f: "fresh plain_gunzip h"
    by blast
  from s f have "h = CompressedFileH
       \<lparr>cinfo = \<lparr>cname = ''b'', cmodTime = 0, compressedContent = ''ABCDEFGHIJ'', uncompressedSize = 10\<rparr>,
        gr = \<lparr>pending = ''ABCDEFGHIJ'', final = EOF\<rparr>, grPos = 0, seekPos = 0\<rparr>"
    by (cases h) (auto simp: NewReader_def plain_gunzip_def)
  with o have 1: "Open plain_gunzip ?fs ''a//./x/../b/''
   = Return (Inr (CompressedFileH
       \<lparr>cinfo = \<lparr>cname = ''b'', cmodTime = 0, compressedContent = ''ABCDEFGHIJ'', uncompressedSize = 10\<rparr>,
        gr = \<lparr>pending = ''ABCDEFGHIJ'', final = EOF\<rparr>, grPos = 0, seekPos = 0\<rparr>))"
    by simp
  from Open_lookup [of ?fs "''/missing''" plain_gunzip, OF v]
  have 2: "Open plain_gunzip ?fs ''/missing'' = Return (Inl (PathError ''open'' ''/missing'' ErrNotExist))"
    unfolding c2 by simp
  from 1 2 show ?thesis by simp
qed

subsection \<open>Stat\<close>

text \<open>
  The write permission bits of a mode are \<open>0222\<close>, that is \<open>0x92\<close>. The mode of a
  directory, \<open>0755 | os.ModeDir\<close>, has the owner's write bit: it is not read-only.
\<close>

theorem Stat_Mode_counterexample:
  "Mode (Stat (DirH \<lparr>dinfo = \<lparr>dname = ''d'', dmodTime = 0, entries = []\<rparr>, pos = 0\<rparr>)) AND 0x92 \<noteq> 0"
  by (simp add: ModeDir_def)

text \<open>
  C6, amended. \<open>Stat\<close> reports the name and the modification time of the node; the
  size is \<open>uncompressedSize\<close> for a compressed file, the length of the content for a
  stored file and 0 for a directory; the mode is \<open>0444\<close> for both kinds of file and
  \<open>0755 | os.ModeDir\<close> for a directory. The directory bit is set exactly for a
  directory, and the mode has no write bit exactly for a file.
\<close>

theorem Stat_fields:
  "Name (Stat (CompressedFileH c)) = cname (cinfo c)
   \<and> Name (Stat (FileH f)) = fname (finfo f)
   \<and> Name (Stat (DirH d)) = dname (dinfo d)
   \<and> ModTime (Stat (CompressedFileH c)) = cmodTime (cinfo c)
   \<and> ModTime (Stat (FileH f)) = fmodTime (finfo f)
   \<and> ModTime (Stat (DirH d)) = dmodTime (dinfo d)
   \<and> Size (Stat (CompressedFileH c)) = uncompressedSize (cinfo c)
   \<and> Size (Stat (FileH f)) = word_of_nat (length (content (finfo f)))
   \<and> Size (Stat (DirH d)) = 0
   \<and> Mode (Stat (CompressedFileH c)) = 0x124
   \<and> Mode (Stat (FileH f)) = 0x124
   \<and> Mode (Stat (DirH d)) = 0x1ED OR ModeDir
   \<and> (Mode (Stat h) AND ModeDir \<noteq> 0) = IsDir (Stat h)
   \<and> (Mode (Stat h) AND 0x92 = 0) = (\<not> IsDir (Stat h))
   \<and> IsDir (Stat h) = (case h of DirH _ \<Rightarrow> True | _ \<Rightarrow> False)"
  by (cases h) (simp_all add: ModeDir_def)

section \<open>Properties of the generator\<close>

subsection \<open>The representation of a file\<close>

text \<open>
  C3. For a file whose content \<open>data\<close> can be read, \<open>walkFn\<close> writes the compressed
  entry (the \<open>CompressedFileInfo\<close> with the payload \<open>gz data\<close>) exactly when the length
  of \<open>gz data\<close> is less than the size of the file; otherwise it drops what the attempt
  wrote and, the reader rewound, writes the \<open>FileInfo\<close> entry with \<open>data\<close> itself. The
  entries denote a \<open>CompressedFileInfo\<close> and a \<open>FileInfo\<close> node; the handle \<open>Open\<close>
  makes of a \<open>FileInfo\<close> has no \<open>GzipBytes\<close>. The size compared is the \<open>Size()\<close> of
  the file's \<open>os.FileInfo\<close>; when that is the length of the content (and the lengths
  fit an \<open>int64\<close>), the test is \<open>length (gz data) < length data\<close>.
\<close>

theorem walkFn_file_representation:
  "walkFn gz path (InFile fi (Inr data) sk) (buf, toc) =
     (if sint (word_of_nat (length (gz data)) :: int64) < sint (os_Size fi)
      then Inr (buf @ [CompressedFileInfo_Before
                         \<lparr>file_Path = path, file_Name = Base path, file_ModTime = os_ModTime fi,
                          UncompressedSize = os_Size fi\<rparr>,
                       Literal (gz data), CompressedFileInfo_After],
                toc\<lparr>HasCompressedFile := True\<rparr>)
      else (case sk of
              Some e \<Rightarrow> Inl (InputError e)
            | None \<Rightarrow>
                Inr (buf @ [FileInfo_Before
                              \<lparr>file_Path = path, file_Name = Base path, file_ModTime = os_ModTime fi,
                               UncompressedSize = os_Size fi\<rparr>,
                            Literal data, FileInfo_After],
                     toc\<lparr>HasFile := True\<rparr>)))
   \<and> table_entries [CompressedFileInfo_Before file, Literal b, CompressedFileInfo_After] =
       [(file_Path file, CompressedFileInfoN \<lparr>cname = file_Name file, cmodTime = file_ModTime file,
           compressedContent = b, uncompressedSize = UncompressedSize file\<rparr>)]
   \<and> table_entries [FileInfo_Before file, Literal b, FileInfo_After] =
       [(file_Path file, FileInfoN \<lparr>fname = file_Name file, fmodTime = file_ModTime file, content = b\<rparr>)]
   \<and> Open_node gunzip (FileInfoN sf) = Return (FileH \<lparr>finfo = sf, roff = 0\<rparr>)
   \<and> GzipBytes (FileH \<lparr>finfo = sf, roff = 0\<rparr>) = None
   \<and> (length data < 2 ^ 63 \<and> length (gz data) < 2 ^ 63 \<and> os_Size fi = word_of_nat (length data) \<longrightarrow>
        (sint (word_of_nat (length (gz data)) :: int64) < sint (os_Size fi)) = (length (gz data) < length data))"
proof -
  have a: "sint (word_of_nat n :: int64) = int n" if "n < 2 ^ 63" for n :: nat
  proof -
    have "int n < 2 ^ 63" using that by (metis of_nat_less_iff of_nat_numeral of_nat_power)
    then show ?thesis by (simp add: signed_of_nat signed_take_bit_int_eq_self)
  qed
  have 1: "length data < 2 ^ 63 \<and> length (gz data) < 2 ^ 63 \<and> os_Size fi = word_of_nat (length data) \<longrightarrow>
        (sint (word_of_nat (length (gz data)) :: int64) < sint (os_Size fi)) = (length (gz data) < length data)"
    by (auto simp: a)
  have 2: "walkFn gz path (InFile fi (Inr data) sk) (buf, toc) =
     (if sint (word_of_nat (length (gz data)) :: int64) < sint (os_Size fi)
      then Inr (buf @ [CompressedFileInfo_Before
                         \<lparr>file_Path = path, file_Name = Base path, file_ModTime = os_ModTime fi,
                          UncompressedSize = os_Size fi\<rparr>,
                       Literal (gz data), CompressedFileInfo_After],
                toc\<lparr>HasCompressedFile := True\<rparr>)
      else (case sk of
              Some e \<Rightarrow> Inl (InputError e)
            | None \<Rightarrow>
                Inr (buf @ [FileInfo_Before
                              \<lparr>file_Path = path, file_Name = Base path, file_ModTime = os_ModTime fi,
                               UncompressedSize = os_Size fi\<rparr>,
                            Literal data, FileInfo_After],
                     toc\<lparr>HasFile := True\<rparr>)))"
    by (simp add: writeCompressedFileInfo_def writeFileInfo_def Let_def not_less split: option.splits)
  have 3: "table_entries [CompressedFileInfo_Before file, Literal b, CompressedFileInfo_After] =
       [(file_Path file, CompressedFileInfoN \<lparr>cname = file_Name file, cmodTime = file_ModTime file,
           compressedContent = b, uncompressedSize = UncompressedSize file\<rparr>)]"
    by (simp add: entry_of_def)
  have 4: "table_entries [FileInfo_Before file, Literal b, FileInfo_After] =
       [(file_Path file, FileInfoN \<lparr>fname = file_Name file, fmodTime = file_ModTime file, content = b\<rparr>)]"
    by (simp add: entry_of_def)
  have 5: "Open_node gunzip (FileInfoN sf) = Return (FileH \<lparr>finfo = sf, roff = 0\<rparr>)"
    by (simp add: Open_node_def)
  show ?thesis
    using 1 2 3 4 5 by simp
qed

theorem walkFn_file_representation_witness:
  "walkFn (take 4) ''/a.txt'' (InFile \<lparr>os_Name = ''a.txt'', os_Size = 10, os_ModTime = 7\<rparr> (Inr ''ABCDEFGHIJ'') None)
     ([], \<lparr>dirs = [], HasCompressedFile = False, HasFile = False\<rparr>)
   = Inr ([CompressedFileInfo_Before
             \<lparr>file_Path = ''/a.txt'', file_Name = ''a.txt'', file_ModTime = 7, UncompressedSize = 10\<rparr>,
           Literal ''ABCD'', CompressedFileInfo_After],
          \<lparr>dirs = [], HasCompressedFile = True, HasFile = False\<rparr>)
   \<and> walkFn (append ''gzip'') ''/b'' (InFile \<lparr>os_Name = ''b'', os_Size = 2, os_ModTime = 7\<rparr> (Inr ''zz'') None)
     ([], \<lparr>dirs = [], HasCompressedFile = False, HasFile = False\<rparr>)
   = Inr ([FileInfo_Before
             \<lparr>file_Path = ''/b'', file_Name = ''b'', file_ModTime = 7, UncompressedSize = 2\<rparr>,
           Literal ''zz'', FileInfo_After],
          \<lparr>dirs = [], HasCompressedFile = False, HasFile = True\<rparr>)
   \<and> length (take 4 ''ABCDEFGHIJ'') < length ''ABCDEFGHIJ''
   \<and> \<not> length (append ''gzip'' ''zz'') < length ''zz''"
  using walkFn_file_representation [of "take 4" "''/a.txt''"
          "\<lparr>os_Name = ''a.txt'', os_Size = 10, os_ModTime = 7\<rparr>" "''ABCDEFGHIJ''" None "[]"
          "\<lparr>dirs = [], HasCompressedFile = False, HasFile = False\<rparr>"]
        walkFn_file_representation [of "append ''gzip''" "''/b''"
          "\<lparr>os_Name = ''b'', os_Size = 2, os_ModTime = 7\<rparr>" "''zz''" None "[]"
          "\<lparr>dirs = [], HasCompressedFile = False, HasFile = False\<rparr>"]
  by (simp add: Base_def)

subsection \<open>Failures of the input\<close>

lemma walk_failures:
  "(failures gz n = [] \<longrightarrow> (\<exists>st'. walkFiles gz path n st = Inr st'))
   \<and> (failures gz n \<noteq> [] \<longrightarrow> walkFiles gz path n st = Inl (InputError (hd (failures gz n))))"
  "(failures_list gz cs = [] \<longrightarrow> (\<exists>st'. walkEntries gz path cs st = Inr st'))
   \<and> (failures_list gz cs \<noteq> [] \<longrightarrow> walkEntries gz path cs st = Inl (InputError (hd (failures_list gz cs))))"
proof (induction gz path n st and gz path cs st rule: walkFiles_walkEntries.induct)
  case (1 gz path n e st)
  then show ?case by (cases st) simp
next
  case (2 gz path fi r sk st)
  then show ?case
    by (cases st; cases r; cases sk)
       (auto simp: writeCompressedFileInfo_def writeFileInfo_def Let_def not_less)
next
  case (3 gz path fi lerr cs st)
  show ?case
  proof (cases lerr)
    case (Some e)
    then show ?thesis by (cases st) (simp add: readDirPaths_def ReadDir_def)
  next
    case None
    obtain buf toc where st: "st = (buf, toc)" by (cases st)
    let ?st1 = "(buf @ [DirInfo_Template \<lparr>dir_Path = path, dir_Name = Base path, dir_ModTime = os_ModTime fi,
                      Entries = sort (map (Join path) (map inode_Name cs))\<rparr>],
                 toc\<lparr>dirs := dirs toc @ [\<lparr>dir_Path = path, dir_Name = Base path, dir_ModTime = os_ModTime fi,
                      Entries = sort (map (Join path) (map inode_Name cs))\<rparr>]\<rparr>)"
    have w: "walkFn gz path (InDir fi lerr cs) st = Inr ?st1"
      using None st by (simp add: readDirPaths_def ReadDir_def Let_def)
    from "3.IH" [OF w] w None show ?thesis by simp
  qed
next
  case (4 gz path st)
  then show ?case by simp
next
  case (5 gz path c cs st)
  show ?case
  proof (cases "failures gz c = []")
    case True
    with "5.IH"(1) obtain st1 where w: "walkFiles gz (Join path (inode_Name c)) c st = Inr st1"
      by blast
    from "5.IH"(2) [OF w] w True show ?thesis by simp
  next
    case False
    with "5.IH"(1) show ?thesis by simp
  qed
qed

text \<open>
  C9. When an operation on the input fails during the walk (an open or stat, a read of
  a file or of a directory, the rewinding of a file), \<open>Generate\<close> returns the error of
  the first one that fails and the disk is as it was: nothing is written. Whenever
  \<open>Generate\<close> returns an error the disk is as it was. When nothing fails, \<open>Generate\<close>
  returns nil and has written the file named in the options.
\<close>

theorem Generate_aborts:
  "(failures gz input \<noteq> [] \<longrightarrow>
      Generate gz fillMissing input opt disk = (Some (InputError (hd (failures gz input))), disk))
   \<and> (failures gz input = [] \<longrightarrow>
      (\<exists>text. Generate gz fillMissing input opt disk = (None, disk(Filename (fillMissing opt) \<mapsto> text))))
   \<and> (\<forall>err disk'. Generate gz fillMissing input opt disk = (Some err, disk') \<longrightarrow> disk' = disk)"
proof (intro conjI impI allI)
  assume "failures gz input \<noteq> []"
  then show "Generate gz fillMissing input opt disk = (Some (InputError (hd (failures gz input))), disk)"
    using walk_failures(1) [of gz input "''/''"]
    by (simp add: Generate_def findAndWriteFiles_def Let_def)
next
  assume "failures gz input = []"
  then obtain st' where "walkFiles gz ''/'' input
       ([Header (fillMissing opt)], \<lparr>dirs = [], HasCompressedFile = False, HasFile = False\<rparr>) = Inr st'"
    using walk_failures(1) [of gz input "''/''"] by blast
  then show "\<exists>text. Generate gz fillMissing input opt disk = (None, disk(Filename (fillMissing opt) \<mapsto> text))"
    by (cases st') (auto simp: Generate_def findAndWriteFiles_def Let_def)
next
  fix err disk'
  assume "Generate gz fillMissing input opt disk = (Some err, disk')"
  then show "disk' = disk"
    by (auto simp: Generate_def Let_def split: sum.splits prod.splits)
qed

theorem Generate_aborts_witness:
  "failures (take 4)
     (InDir \<lparr>os_Name = ''/'', os_Size = 0, os_ModTime = 1\<rparr> None
        [InFile \<lparr>os_Name = ''a.txt'', os_Size = 10, os_ModTime = 7\<rparr> (Inr ''ABCDEFGHIJ'') None,
         InBroken ''b'' ''permission denied'',
         InFile \<lparr>os_Name = ''c'', os_Size = 3, os_ModTime = 7\<rparr> (Inl ''read error'') None]) \<noteq> []
   \<and> Generate (take 4) id
     (InDir \<lparr>os_Name = ''/'', os_Size = 0, os_ModTime = 1\<rparr> None
        [InFile \<lparr>os_Name = ''a.txt'', os_Size = 10, os_ModTime = 7\<rparr> (Inr ''ABCDEFGHIJ'') None,
         InBroken ''b'' ''permission denied'',
         InFile \<lparr>os_Name = ''c'', os_Size = 3, os_ModTime = 7\<rparr> (Inl ''read error'') None])
     \<lparr>Filename = ''assets.go'', PackageName = ''main'', BuildTags = [], VariableName = ''assets'',
      VariableComment = []\<rparr>
     Map.empty
   = (Some (InputError ''permission denied''), Map.empty)"
  using Generate_aborts [of "take 4"
     "InDir \<lparr>os_Name = ''/'', os_Size = 0, os_ModTime = 1\<rparr> None
        [InFile \<lparr>os_Name = ''a.txt'', os_Size = 10, os_ModTime = 7\<rparr> (Inr ''ABCDEFGHIJ'') None,
         InBroken ''b'' ''permission denied'',
         InFile \<lparr>os_Name = ''c'', os_Size = 3, os_ModTime = 7\<rparr> (Inl ''read error'') None]"
     id
     "\<lparr>Filename = ''assets.go'', PackageName = ''main'', BuildTags = [], VariableName = ''assets'',
      VariableComment = []\<rparr>" Map.empty]
  by simp

end
